theory Spec2Isabelle
  imports Complex_Main
begin

section \<open>Python values, errors and containers\<close>

text \<open>
  The decision pipeline of \<^verbatim>\<open>src/main.py\<close> is embedded function by function. Python
  floats are idealised as \<^typ>\<open>real\<close> (exact arithmetic, no rounding); the readings that
  the two Raspberry Pi clients post are numbers, so the stored moisture is a \<^typ>\<open>real\<close>
  and the stored temperature and humidity are \<^typ>\<open>real option\<close> (\<open>None\<close> until the
  first DHT22 report, and whenever a report lacks the key).
\<close>

datatype py_error = TypeError | KeyError

text \<open>\<^verbatim>\<open>x < limit\<close> where \<open>x\<close> may be \<^verbatim>\<open>None\<close>: Python 3 raises TypeError.\<close>

definition py_lt :: "real option \<Rightarrow> real \<Rightarrow> py_error + bool" where
  "py_lt x limit = (case x of None \<Rightarrow> Inl TypeError | Some v \<Rightarrow> Inr (v < limit))"

text \<open>\<^verbatim>\<open>a and b\<close>: \<open>b\<close> is evaluated (and may raise) only when \<open>a\<close> is true.\<close>

definition py_and :: "py_error + bool \<Rightarrow> py_error + bool \<Rightarrow> py_error + bool" where
  "py_and a b = (case a of Inl e \<Rightarrow> Inl e | Inr t \<Rightarrow> if t then b else Inr False)"

definition dict_contains :: "('k \<rightharpoonup> 'v) \<Rightarrow> 'k \<Rightarrow> bool" where
  "dict_contains d k = (d k \<noteq> None)"

definition dict_getitem :: "('k \<rightharpoonup> 'v) \<Rightarrow> 'k \<Rightarrow> py_error + 'v" where
  "dict_getitem d k = (case d k of None \<Rightarrow> Inl KeyError | Some v \<Rightarrow> Inr v)"

text \<open>\<^verbatim>\<open>s.split(" ")[0]\<close>: the text before the first space (all of \<open>s\<close> without one).\<close>

definition split_first :: "string \<Rightarrow> string" where
  "split_first s = takeWhile (\<lambda>c. c \<noteq> CHR '' '') s"

text \<open>
  \<^verbatim>\<open>collections.deque(maxlen=n)\<close>: \<^verbatim>\<open>append\<close> adds on the right and, when that makes
  the deque longer than \<open>n\<close>, discards one item on the left. It never blocks.
\<close>

definition deque_append :: "nat \<Rightarrow> 'a list \<Rightarrow> 'a \<Rightarrow> 'a list" where
  "deque_append maxlen q x = (let q' = q @ [x] in if maxlen < length q' then tl q' else q')"

text \<open>
  The consumer's read of a deque, lines 279--283: \<^verbatim>\<open>if not q: sleep; continue\<close>, else
  \<^verbatim>\<open>q.popleft()\<close>. An empty deque is reported as \<open>None\<close>, without waiting for an item.
\<close>

definition deque_try_take :: "'a list \<Rightarrow> 'a option \<times> 'a list" where
  "deque_try_take q = (case q of [] \<Rightarrow> (None, []) | x # rest \<Rightarrow> (Some x, rest))"

section \<open>Configuration\<close>

definition MIN_CONFIDENCE :: real where "MIN_CONFIDENCE = 35"

definition spray_durations :: "string \<rightharpoonup> int" where
  "spray_durations = [''low'' \<mapsto> 2, ''medium'' \<mapsto> 3, ''high'' \<mapsto> 5]"

definition MOISTURE_LIMIT :: real where "MOISTURE_LIMIT = 40"
definition HUMIDITY_LIMIT :: real where "HUMIDITY_LIMIT = 70"
definition TEMP_LIMIT :: real where "TEMP_LIMIT = 30"

definition HISTORY_SIZE :: nat where "HISTORY_SIZE = 20"
definition SMOOTHING_ALPHA :: real where "SMOOTHING_ALPHA = 1 / 10"
definition HYSTERESIS :: int where "HYSTERESIS = 5"

definition NO_PLANT :: string where "NO_PLANT = ''No Plant Detected''"

type_synonym color = "nat \<times> nat \<times> nat"

definition RED :: color where "RED = (0, 0, 255)"
definition GREEN :: color where "GREEN = (0, 255, 0)"

section \<open>Global state\<close>

text \<open>
  The f-strings passed to \<^verbatim>\<open>log_event\<close>, one constructor per template with the
  interpolated values as arguments.
\<close>

datatype log_message =
    Motor_on int string
  | Motor_off int
  | Manual_override
  | Auto_spray string int
  | Force_requested
  | System_started

record log_entry =
  entry_time :: real
  entry_message :: log_message
  entry_type :: string

type_synonym frame = nat

text \<open>
  The module's globals. \<^verbatim>\<open>latest_plant\<close> is a dict that always holds the keys
  \<^verbatim>\<open>label\<close> and \<^verbatim>\<open>confidence\<close>; it is modelled by two fields. The globals that no
  function reads or writes (\<^verbatim>\<open>motor_started_at\<close>, \<^verbatim>\<open>motor_run_for\<close>,
  \<^verbatim>\<open>saved_frame\<close>) are left out.
\<close>

record state =
  motor_running :: bool
  prediction_history :: "(string \<times> real) list"
  plant_currently_visible :: bool
  frames_without_plant :: int
  current_motor_command :: string
  command_duration :: int
  latest_moisture :: real
  latest_temperature :: "real option"
  latest_humidity :: "real option"
  latest_plant_label :: string
  latest_plant_confidence :: real
  force_spray_now :: bool
  activity_log :: "log_entry list"
  raw_frame_queue :: "frame list"
  processed_frame_queue :: "(string \<times> color \<times> real \<times> frame) list"
  freeze_active :: bool
  spray_in_progress :: bool
  spray_started_at :: real
  spray_lasts_for :: int
  manual_spray_prompt :: string

definition initial_state :: state where
  "initial_state =
     \<lparr>motor_running = False, prediction_history = [], plant_currently_visible = False,
      frames_without_plant = 0, current_motor_command = ''STOP'', command_duration = 0,
      latest_moisture = 0, latest_temperature = None, latest_humidity = None,
      latest_plant_label = NO_PLANT, latest_plant_confidence = 0,
      force_spray_now = False, activity_log = [], raw_frame_queue = [],
      processed_frame_queue = [], freeze_active = False, spray_in_progress = False,
      spray_started_at = 0, spray_lasts_for = 0, manual_spray_prompt = []\<rparr>"

definition log_event :: "real \<Rightarrow> log_message \<Rightarrow> string \<Rightarrow> state \<Rightarrow> state" where
  "log_event ts msg level s =
     s\<lparr>activity_log :=
         deque_append 50 (activity_log s)
           \<lparr>entry_time = ts, entry_message = msg, entry_type = level\<rparr>\<rparr>"

section \<open>Temporal stabilizer\<close>

text \<open>
  The loop of lines 151--156 over \<^verbatim>\<open>enumerate(prediction_history)\<close>: the index and the
  running value are the loop's variables.
\<close>

fun smooth_loop :: "nat \<Rightarrow> real \<Rightarrow> (string \<times> real) list \<Rightarrow> real" where
  "smooth_loop i smoothed [] = smoothed"
| "smooth_loop i smoothed ((lbl, conf) # rest) =
     smooth_loop (Suc i)
       (if i = 0 then conf else SMOOTHING_ALPHA * conf + (1 - SMOOTHING_ALPHA) * smoothed)
       rest"

definition valid_labels_of :: "(string \<times> real) list \<Rightarrow> string list" where
  "valid_labels_of history = map fst (filter (\<lambda>(lbl, conf). lbl \<noteq> NO_PLANT) history)"

text \<open>
  Iterating over \<^verbatim>\<open>set(valid_labels)\<close> visits each distinct label once, in an order
  that Python does not specify. The order is a parameter: the labels are visited by
  increasing \<open>rank\<close> (labels of equal rank in the order of their last occurrence).
\<close>

definition py_set_iter :: "(string \<Rightarrow> nat) \<Rightarrow> string list \<Rightarrow> string list" where
  "py_set_iter rank xs = sort_key rank (remdups xs)"

text \<open>\<^verbatim>\<open>max(it, key=f)\<close> keeps the first item whose key is the largest.\<close>

fun py_max_key :: "('a \<Rightarrow> nat) \<Rightarrow> 'a \<Rightarrow> 'a list \<Rightarrow> 'a" where
  "py_max_key f best [] = best"
| "py_max_key f best (x # xs) = py_max_key f (if f best < f x then x else best) xs"

definition most_common_label :: "(string \<Rightarrow> nat) \<Rightarrow> string list \<Rightarrow> string" where
  "most_common_label rank valid_labels =
     (case py_set_iter rank valid_labels of
        [] \<Rightarrow> NO_PLANT
      | x # rest \<Rightarrow> py_max_key (count_list valid_labels) x rest)"

definition get_stable_prediction ::
  "(string \<Rightarrow> nat) \<Rightarrow> state \<Rightarrow> state \<times> (string \<times> color \<times> real)" where
  "get_stable_prediction rank s =
     (if prediction_history s = [] then (s, (NO_PLANT, RED, 0))
      else
        let smoothed = smooth_loop 0 0 (prediction_history s);
            most_common = most_common_label rank (valid_labels_of (prediction_history s))
        in if MIN_CONFIDENCE \<le> smoothed then
             (s\<lparr>plant_currently_visible := True, frames_without_plant := 0\<rparr>,
              (most_common, GREEN, smoothed))
           else
             let s1 = s\<lparr>frames_without_plant := frames_without_plant s + 1\<rparr>
             in if plant_currently_visible s1 \<and> frames_without_plant s1 < HYSTERESIS then
                  (s1, (most_common, GREEN, smoothed))
                else
                  (s1\<lparr>plant_currently_visible := False, frames_without_plant := 0\<rparr>,
                   (NO_PLANT, RED, smoothed)))"

text \<open>
  Lines 301--312: the classification of the frame, a pair \<open>(label, confidence)\<close>, is
  appended to the history (at most \<open>HISTORY_SIZE\<close> entries) and the stable reading is
  recomputed. The classifier itself is external; its output is the argument \<open>pred\<close>.
\<close>

definition push_prediction ::
  "(string \<Rightarrow> nat) \<Rightarrow> string \<times> real \<Rightarrow> state \<Rightarrow> state \<times> (string \<times> color \<times> real)" where
  "push_prediction rank pred s =
     get_stable_prediction rank
       (s\<lparr>prediction_history := deque_append HISTORY_SIZE (prediction_history s) pred\<rparr>)"

text \<open>A sequence of classifications, one per processed frame; the readings in order.\<close>

fun feed ::
  "(string \<Rightarrow> nat) \<Rightarrow> (string \<times> real) list \<Rightarrow> state \<Rightarrow> state \<times> (string \<times> color \<times> real) list" where
  "feed rank [] s = (s, [])"
| "feed rank (p # ps) s =
     (case push_prediction rank p s of
        (s1, out) \<Rightarrow> (case feed rank ps s1 of (s2, outs) \<Rightarrow> (s2, out # outs)))"

definition reading_label :: "string \<times> color \<times> real \<Rightarrow> string" where
  "reading_label r = fst r"

definition reading_confidence :: "string \<times> color \<times> real \<Rightarrow> real" where
  "reading_confidence r = snd (snd r)"

section \<open>Actuation controller\<close>

text \<open>
  \<^verbatim>\<open>run_motor_spray\<close> runs in a thread of its own and blocks in
  \<^verbatim>\<open>time.sleep(duration)\<close>. It is split at the sleep: the statements before it
  (lines 188--198) and the statements after it (lines 203--208). \<open>ts\<close> is the clock at
  the moment of the call. The first part returns \<open>None\<close> at the early return of line 189.
\<close>

definition run_motor_spray_begin ::
  "real \<Rightarrow> string \<Rightarrow> state \<Rightarrow> state \<times> (py_error + int option)" where
  "run_motor_spray_begin ts severity_level s =
     (if \<not> dict_contains spray_durations severity_level then (s, Inr None)
      else case dict_getitem spray_durations severity_level of
             Inl e \<Rightarrow> (s, Inl e)
           | Inr duration \<Rightarrow>
               (log_event ts (Motor_on duration severity_level) ''success''
                  (s\<lparr>spray_lasts_for := duration, spray_started_at := ts,
                     motor_running := True\<rparr>),
                Inr (Some duration)))"

definition run_motor_spray_end :: "real \<Rightarrow> int \<Rightarrow> state \<Rightarrow> state" where
  "run_motor_spray_end ts duration s =
     log_event ts (Motor_off duration) ''info''
       (s\<lparr>motor_running := False, spray_in_progress := False, freeze_active := False,
          manual_spray_prompt := []\<rparr>)"

section \<open>Environmental gate and the processing loop\<close>

text \<open>The condition of lines 332--338, with Python's left-to-right evaluation.\<close>

definition conditions_met :: "state \<Rightarrow> string \<Rightarrow> py_error + bool" where
  "conditions_met s detected_severity =
     py_and (Inr (dict_contains spray_durations detected_severity))
    (py_and (Inr (latest_moisture s < MOISTURE_LIMIT))
    (py_and (Inr (latest_humidity s \<noteq> None))
    (py_and (py_lt (latest_humidity s) HUMIDITY_LIMIT)
    (py_and (Inr (latest_temperature s \<noteq> None))
    (py_and (py_lt (latest_temperature s) TEMP_LIMIT)
            (Inr (\<not> motor_running s)))))))"

text \<open>
  One pass of the \<^verbatim>\<open>while True\<close> loop of \<^verbatim>\<open>process_frames_loop\<close>. With no frame
  queued the pass only sleeps. Otherwise it returns the new globals and either the
  exception that ended the thread or the argument of the spray thread it started
  (\<open>None\<close>: no thread started). The overlay is not modelled: the rendered frame put on
  the output queue is the frame itself.
\<close>

definition process_frames_iteration ::
  "(string \<Rightarrow> nat) \<Rightarrow> string \<times> real \<Rightarrow> state \<Rightarrow> state \<times> (py_error + string option)" where
  "process_frames_iteration rank pred s =
     (case deque_try_take (raw_frame_queue s) of
        (None, q) \<Rightarrow> (s, Inr None)
      | (Some frame, q) \<Rightarrow>
          (case push_prediction rank pred (s\<lparr>raw_frame_queue := q\<rparr>) of
             (s1, stable_label, label_color, stable_conf) \<Rightarrow>
               let s2 = s1\<lparr>latest_plant_label := stable_label,
                          latest_plant_confidence := stable_conf\<rparr>;
                   detected_severity = split_first stable_label
               in case conditions_met s2 detected_severity of
                    Inl e \<Rightarrow> (s2, Inl e)
                  | Inr ok \<Rightarrow>
                      (s2\<lparr>processed_frame_queue :=
                            deque_append 1 (processed_frame_queue s2)
                              (stable_label, label_color, stable_conf, frame)\<rparr>,
                       Inr (if ok then Some detected_severity else None))))"

section \<open>HTTP handlers\<close>

record response =
  motor_command :: string
  duration :: int

text \<open>The condition of lines 391--397.\<close>

definition all_conditions_ok :: "state \<Rightarrow> string \<Rightarrow> py_error + bool" where
  "all_conditions_ok s plant_label =
     py_and (Inr (dict_contains spray_durations plant_label))
    (py_and (Inr (plant_label \<noteq> NO_PLANT))
    (py_and (Inr (latest_moisture s < MOISTURE_LIMIT))
    (py_and (Inr (latest_humidity s \<noteq> None))
    (py_and (py_lt (latest_humidity s) HUMIDITY_LIMIT)
    (py_and (Inr (latest_temperature s \<noteq> None))
            (py_lt (latest_temperature s) TEMP_LIMIT))))))"

text \<open>Line 407: the reply is built from the two globals just written.\<close>

definition reply :: "state \<Rightarrow> state \<times> (py_error + response)" where
  "reply s = (s, Inr \<lparr>motor_command = current_motor_command s, duration = command_duration s\<rparr>)"

text \<open>
  \<^verbatim>\<open>POST /process\<close>. \<open>data\<close> is the JSON object of the request, a dict from keys to
  numbers; \<open>ts\<close> is the clock. The result is the new globals and the reply, or the
  exception that the handler raised.
\<close>

definition handle_moisture_data ::
  "real \<Rightarrow> (string \<rightharpoonup> real) \<Rightarrow> state \<Rightarrow> state \<times> (py_error + response)" where
  "handle_moisture_data ts data s =
     (let s1 = s\<lparr>latest_moisture := (case data ''moisture'' of None \<Rightarrow> 0 | Some m \<Rightarrow> m)\<rparr>;
          plant_label = split_first (latest_plant_label s1)
      in if force_spray_now s1 then
           reply (log_event ts Manual_override ''warning''
                    (s1\<lparr>current_motor_command := ''RUN'', command_duration := 3,
                        force_spray_now := False\<rparr>))
         else
           case all_conditions_ok s1 plant_label of
             Inl e \<Rightarrow> (s1, Inl e)
           | Inr ok \<Rightarrow>
               if ok then
                 (case dict_getitem spray_durations plant_label of
                    Inl e \<Rightarrow> (s1\<lparr>current_motor_command := ''RUN''\<rparr>, Inl e)
                  | Inr d \<Rightarrow>
                      reply (log_event ts (Auto_spray plant_label d) ''success''
                               (s1\<lparr>current_motor_command := ''RUN'', command_duration := d\<rparr>)))
               else reply (s1\<lparr>current_motor_command := ''STOP'', command_duration := 0\<rparr>))"

text \<open>The reply of a handler that did not raise.\<close>

definition poll_reply :: "real \<Rightarrow> (string \<rightharpoonup> real) \<Rightarrow> state \<Rightarrow> py_error + response" where
  "poll_reply ts data s = snd (handle_moisture_data ts data s)"

definition handle_dht22_data :: "(string \<rightharpoonup> real) \<Rightarrow> state \<Rightarrow> state" where
  "handle_dht22_data data s =
     s\<lparr>latest_temperature := data ''temperature'', latest_humidity := data ''humidity''\<rparr>"

definition trigger_force_spray :: "real \<Rightarrow> state \<Rightarrow> state" where
  "trigger_force_spray ts s = log_event ts Force_requested ''warning'' (s\<lparr>force_spray_now := True\<rparr>)"

text \<open>
  The remote node, \<^verbatim>\<open>sensor_and_motor_loop\<close> of \<^verbatim>\<open>src/pi_client.py\<close>: the pump is
  switched on exactly when the reply says \<^verbatim>\<open>RUN\<close> with a positive duration.
\<close>

definition pi_motor_on :: "response \<Rightarrow> bool" where
  "pi_motor_on result = (motor_command result = ''RUN'' \<and> 0 < duration result)"

section \<open>The threads together\<close>

text \<open>
  A spray thread is \<open>Spawned\<close> by \<^verbatim>\<open>t.start()\<close> with its argument, is \<open>Sleeping\<close>
  after the statements before \<^verbatim>\<open>time.sleep\<close> (with the duration and the time at which
  the sleep ends) and is \<open>Finished\<close> after the statements that follow the sleep.
\<close>

datatype spray_thread = Spawned string | Sleeping int real | Finished

record system =
  globals :: state
  spray_threads :: "spray_thread list"
  now :: real
  ai_thread_error :: "py_error option"

definition initial_system :: system where
  "initial_system =
     \<lparr>globals = log_event 0 System_started ''info'' initial_state, spray_threads = [],
      now = 0, ai_thread_error = None\<rparr>"

text \<open>
  What the threads of the program can do next. Each event is the code one thread runs
  between two points where it can be suspended: a capture, one pass of the processing
  loop on the classification \<open>pred\<close>, the first and the second part of spray thread
  \<open>i\<close>, the three POST handlers, and the passing of time.
\<close>

datatype event =
    Capture frame
  | Process_frame "string \<times> real"
  | Spray_begin nat
  | Spray_end nat
  | Post_process "string \<rightharpoonup> real"
  | Post_dht22 "string \<rightharpoonup> real"
  | Post_force_spray
  | Tick real

text \<open>\<open>None\<close>: the event cannot happen in this state.\<close>

fun exec_event :: "(string \<Rightarrow> nat) \<Rightarrow> event \<Rightarrow> system \<Rightarrow> system option" where
  "exec_event rank (Capture f) sys =
     Some (sys\<lparr>globals := (globals sys)
             \<lparr>raw_frame_queue := deque_append 1 (raw_frame_queue (globals sys)) f\<rparr>\<rparr>)"
| "exec_event rank (Process_frame pred) sys =
     (if ai_thread_error sys \<noteq> None \<or> raw_frame_queue (globals sys) = [] then None
      else case process_frames_iteration rank pred (globals sys) of
             (g, Inl e) \<Rightarrow> Some (sys\<lparr>globals := g, ai_thread_error := Some e\<rparr>)
           | (g, Inr None) \<Rightarrow> Some (sys\<lparr>globals := g\<rparr>)
           | (g, Inr (Some severity)) \<Rightarrow>
               Some (sys\<lparr>globals := g,
                         spray_threads := spray_threads sys @ [Spawned severity]\<rparr>))"
| "exec_event rank (Spray_begin i) sys =
     (if length (spray_threads sys) \<le> i then None
      else case spray_threads sys ! i of
             Spawned severity \<Rightarrow>
               (case run_motor_spray_begin (now sys) severity (globals sys) of
                  (g, Inr (Some d)) \<Rightarrow>
                    Some (sys\<lparr>globals := g,
                              spray_threads :=
                                (spray_threads sys)[i := Sleeping d (now sys + real_of_int d)]\<rparr>)
                | (g, _) \<Rightarrow>
                    Some (sys\<lparr>globals := g, spray_threads := (spray_threads sys)[i := Finished]\<rparr>))
           | _ \<Rightarrow> None)"
| "exec_event rank (Spray_end i) sys =
     (if length (spray_threads sys) \<le> i then None
      else case spray_threads sys ! i of
             Sleeping d wake \<Rightarrow>
               if wake \<le> now sys then
                 Some (sys\<lparr>globals := run_motor_spray_end (now sys) d (globals sys),
                           spray_threads := (spray_threads sys)[i := Finished]\<rparr>)
               else None
           | _ \<Rightarrow> None)"
| "exec_event rank (Post_process data) sys =
     Some (sys\<lparr>globals := fst (handle_moisture_data (now sys) data (globals sys))\<rparr>)"
| "exec_event rank (Post_dht22 data) sys =
     Some (sys\<lparr>globals := handle_dht22_data data (globals sys)\<rparr>)"
| "exec_event rank Post_force_spray sys =
     Some (sys\<lparr>globals := trigger_force_spray (now sys) (globals sys)\<rparr>)"
| "exec_event rank (Tick d) sys = (if 0 \<le> d then Some (sys\<lparr>now := now sys + d\<rparr>) else None)"

fun run_events :: "(string \<Rightarrow> nat) \<Rightarrow> event list \<Rightarrow> system \<Rightarrow> system option" where
  "run_events rank [] sys = Some sys"
| "run_events rank (e # es) sys =
     (case exec_event rank e sys of None \<Rightarrow> None | Some sys1 \<Rightarrow> run_events rank es sys1)"

text \<open>An actuation session is active from the first part of its thread to the second.\<close>

fun session_active :: "spray_thread \<Rightarrow> bool" where
  "session_active (Sleeping d wake) = True"
| "session_active (Spawned severity) = False"
| "session_active Finished = False"

definition active_sessions :: "system \<Rightarrow> nat" where
  "active_sessions sys = length (filter session_active (spray_threads sys))"

section \<open>Concrete runs\<close>

text \<open>
  Inputs for the scenarios: an iteration order of sets, a DHT22 report, a moisture
  poll, a confident classification, and schedules of the threads from the start of the
  program.
\<close>

definition rank0 :: "string \<Rightarrow> nat" where
  "rank0 l = 0"

definition dht22_mild :: "string \<rightharpoonup> real" where
  "dht22_mild = [''temperature'' \<mapsto> 22, ''humidity'' \<mapsto> 50]"

definition moisture_dry :: "string \<rightharpoonup> real" where
  "moisture_dry = [''moisture'' \<mapsto> 35]"

definition high_frame :: "string \<times> real" where
  "high_frame = (''high (90.0%)'', 90)"

definition spray_started_events :: "event list" where
  "spray_started_events =
     [Post_dht22 dht22_mild, Post_process moisture_dry, Capture 1, Process_frame high_frame,
      Spray_begin 0]"

text \<open>What a poll sees: whether the motor is running, and the reply.\<close>

definition poll_observation :: "(string \<rightharpoonup> real) \<Rightarrow> system \<Rightarrow> bool \<times> (py_error + response)" where
  "poll_observation data sys =
     (motor_running (globals sys), poll_reply (now sys) data (globals sys))"

definition high_state :: state where
  "high_state =
     initial_state\<lparr>latest_plant_label := ''high (90.0%)'', latest_plant_confidence := 90,
                   latest_humidity := Some 50, latest_temperature := Some 22\<rparr>"

definition healthy_state :: state where
  "healthy_state =
     initial_state\<lparr>latest_plant_label := ''healthy (90.0%)'', latest_plant_confidence := 90,
                   latest_humidity := Some 50, latest_temperature := Some 22\<rparr>"

text \<open>One confident frame followed by twenty frames without a plant.\<close>

definition evicting_samples :: "(string \<times> real) list" where
  "evicting_samples = (''high (100.0%)'', 100) # replicate 20 (NO_PLANT, 0)"

text \<open>
  A frame classified as healthy just above the confidence threshold and a frame
  classified as low well below it; the state after the first of them.
\<close>

definition weak_healthy_frame :: "string \<times> real" where
  "weak_healthy_frame = (''healthy (35.5%)'', 71 / 2)"

definition weak_low_frame :: "string \<times> real" where
  "weak_low_frame = (''low (26.0%)'', 26)"

definition barely_visible_state :: state where
  "barely_visible_state = fst (push_prediction rank0 weak_healthy_frame initial_state)"

text \<open>
  The program after a DHT22 report, a moisture poll and the capture of a frame; and a
  schedule in which the processing loop makes two passes before either of the spray
  threads it started has run its first statement.
\<close>

definition ready_system :: system where
  "ready_system =
     initial_system
       \<lparr>globals := (globals initial_system)
          \<lparr>latest_moisture := 35, latest_temperature := Some 22, latest_humidity := Some 50,
           raw_frame_queue := [1]\<rparr>\<rparr>"

definition race_events :: "event list" where
  "race_events =
     [Post_dht22 dht22_mild, Post_process moisture_dry,
      Capture 1, Process_frame high_frame, Capture 2, Process_frame high_frame,
      Spray_begin 0, Spray_begin 1]"

text \<open>The number of active sessions and the flag that the gate reads.\<close>

definition session_observation :: "system \<Rightarrow> nat \<times> bool" where
  "session_observation sys = (active_sessions sys, motor_running (globals sys))"

section \<open>The gate and the poll handler\<close>

text \<open>Neither form of the gate raises: every comparison is behind its \<open>None\<close> test.\<close>

lemma all_conditions_ok_eq:
  "all_conditions_ok s l =
     Inr (spray_durations l \<noteq> None \<and> l \<noteq> NO_PLANT \<and> latest_moisture s < MOISTURE_LIMIT \<and>
          (case latest_humidity s of None \<Rightarrow> False | Some h \<Rightarrow> h < HUMIDITY_LIMIT) \<and>
          (case latest_temperature s of None \<Rightarrow> False | Some t \<Rightarrow> t < TEMP_LIMIT))"
  by (simp add: all_conditions_ok_def py_and_def py_lt_def dict_contains_def split: option.splits)

lemma conditions_met_eq:
  "conditions_met s l =
     Inr (spray_durations l \<noteq> None \<and> latest_moisture s < MOISTURE_LIMIT \<and>
          (case latest_humidity s of None \<Rightarrow> False | Some h \<Rightarrow> h < HUMIDITY_LIMIT) \<and>
          (case latest_temperature s of None \<Rightarrow> False | Some t \<Rightarrow> t < TEMP_LIMIT) \<and>
          \<not> motor_running s)"
  by (simp add: conditions_met_def py_and_def py_lt_def dict_contains_def split: option.splits)

lemma spray_durations_cases:
  "spray_durations l = Some d \<Longrightarrow> (l, d) \<in> {(''low'', 2), (''medium'', 3), (''high'', 5)}"
  by (auto simp: spray_durations_def split: if_splits)

lemma poll_reply_force:
  "force_spray_now s \<Longrightarrow>
     poll_reply ts data s = Inr \<lparr>motor_command = ''RUN'', duration = 3\<rparr>"
  by (simp add: poll_reply_def handle_moisture_data_def Let_def reply_def log_event_def)

lemma poll_reply_auto:
  "\<not> force_spray_now s \<Longrightarrow>
     poll_reply ts data s =
       (case all_conditions_ok
               (s\<lparr>latest_moisture := (case data ''moisture'' of None \<Rightarrow> 0 | Some m \<Rightarrow> m)\<rparr>)
               (split_first (latest_plant_label s)) of
          Inl e \<Rightarrow> Inl e
        | Inr ok \<Rightarrow>
            if ok then
              (case spray_durations (split_first (latest_plant_label s)) of
                 None \<Rightarrow> Inl KeyError
               | Some d \<Rightarrow> Inr \<lparr>motor_command = ''RUN'', duration = d\<rparr>)
            else Inr \<lparr>motor_command = ''STOP'', duration = 0\<rparr>)"
  by (simp add: poll_reply_def handle_moisture_data_def Let_def reply_def log_event_def
      dict_getitem_def split: sum.splits option.splits)

lemma handle_clears_force_flag:
  "\<not> force_spray_now (fst (handle_moisture_data ts data s))"
  by (simp add: handle_moisture_data_def Let_def reply_def log_event_def
      dict_getitem_def split: sum.splits option.splits)

lemma handle_keeps_environment:
  "latest_humidity (fst (handle_moisture_data ts data s)) = latest_humidity s"
  "latest_temperature (fst (handle_moisture_data ts data s)) = latest_temperature s"
  "latest_plant_label (fst (handle_moisture_data ts data s)) = latest_plant_label s"
  "motor_running (fst (handle_moisture_data ts data s)) = motor_running s"
  "latest_moisture (fst (handle_moisture_data ts data s)) =
     (case data ''moisture'' of None \<Rightarrow> 0 | Some m \<Rightarrow> m)"
  by (simp_all add: handle_moisture_data_def Let_def reply_def log_event_def
      dict_getitem_def split: sum.splits option.splits)

lemmas example_simps =
  high_state_def healthy_state_def initial_state_def dht22_mild_def moisture_dry_def
  split_first_def NO_PLANT_def spray_durations_def
  MOISTURE_LIMIT_def HUMIDITY_LIMIT_def TEMP_LIMIT_def

lemmas run_simps =
  spray_started_events_def initial_system_def initial_state_def
  dht22_mild_def moisture_dry_def high_frame_def rank0_def
  handle_dht22_data_def handle_moisture_data_def Let_def reply_def log_event_def
  split_first_def NO_PLANT_def
  process_frames_iteration_def deque_try_take_def deque_append_def
  push_prediction_def get_stable_prediction_def HISTORY_SIZE_def MIN_CONFIDENCE_def
  most_common_label_def valid_labels_of_def py_set_iter_def
  run_motor_spray_begin_def run_motor_spray_end_def
  dict_contains_def dict_getitem_def spray_durations_def
  MOISTURE_LIMIT_def HUMIDITY_LIMIT_def TEMP_LIMIT_def GREEN_def RED_def
  trigger_force_spray_def

text \<open>
  Claim C1, as stated: while the motor is running, a poll of \<^verbatim>\<open>/process\<close> is answered
  with STOP and duration 0, whatever the severity, the environment and the force flag.
  The handler never reads \<^verbatim>\<open>motor_running\<close>. In the run below the program starts, the
  environment is reported, a frame is classified as high, the spray thread switches the
  motor on and the force button is pressed; the next poll is answered with RUN for 3
  seconds while the motor is running.
\<close>

theorem C1_counterexample:
  "map_option (poll_observation moisture_dry)
     (run_events rank0 (spray_started_events @ [Post_force_spray]) initial_system) =
   Some (True, Inr \<lparr>motor_command = ''RUN'', duration = 3\<rparr>)"
  by (simp add: run_simps poll_observation_def poll_reply_force
       all_conditions_ok_eq conditions_met_eq)

text \<open>
  Claim C1, amended: while the motor is running, a poll with the force flag set is
  answered with RUN and duration 3, and a poll with the force flag clear whose gate
  conditions on severity and environment do not all hold is answered with STOP and
  duration 0.
\<close>

theorem C1_poll_while_active:
  assumes "motor_running s"
    and "force_spray_now s \<or>
         all_conditions_ok
           (s\<lparr>latest_moisture := (case data ''moisture'' of None \<Rightarrow> 0 | Some m \<Rightarrow> m)\<rparr>)
           (split_first (latest_plant_label s)) = Inr False"
  shows "poll_reply ts data s =
           Inr (if force_spray_now s then \<lparr>motor_command = ''RUN'', duration = 3\<rparr>
                else \<lparr>motor_command = ''STOP'', duration = 0\<rparr>)"
proof (cases "force_spray_now s")
  case True
  then show ?thesis by (simp add: poll_reply_force)
next
  case False
  with assms(2) show ?thesis by (simp add: poll_reply_auto)
qed

theorem C1_poll_while_active_witness:
  "motor_running (high_state\<lparr>motor_running := True, force_spray_now := True\<rparr>) \<and>
   poll_reply 0 moisture_dry (high_state\<lparr>motor_running := True, force_spray_now := True\<rparr>) =
     Inr \<lparr>motor_command = ''RUN'', duration = 3\<rparr> \<and>
   motor_running (healthy_state\<lparr>motor_running := True\<rparr>) \<and>
   all_conditions_ok (healthy_state\<lparr>motor_running := True, latest_moisture := 35\<rparr>)
     ''healthy'' = Inr False \<and>
   poll_reply 0 moisture_dry (healthy_state\<lparr>motor_running := True\<rparr>) =
     Inr \<lparr>motor_command = ''STOP'', duration = 0\<rparr>"
  using
    C1_poll_while_active
      [of "high_state\<lparr>motor_running := True, force_spray_now := True\<rparr>" moisture_dry 0]
    C1_poll_while_active [of "healthy_state\<lparr>motor_running := True\<rparr>" moisture_dry 0]
  by (simp add: example_simps all_conditions_ok_eq)

section \<open>Missing sensors and the force flag\<close>

text \<open>The stabilizer writes only its visibility flag and its counter.\<close>

lemma get_stable_prediction_keeps:
  "latest_humidity (fst (get_stable_prediction rank s)) = latest_humidity s"
  "latest_temperature (fst (get_stable_prediction rank s)) = latest_temperature s"
  "latest_moisture (fst (get_stable_prediction rank s)) = latest_moisture s"
  "motor_running (fst (get_stable_prediction rank s)) = motor_running s"
  "raw_frame_queue (fst (get_stable_prediction rank s)) = raw_frame_queue s"
  "prediction_history (fst (get_stable_prediction rank s)) = prediction_history s"
  by (simp_all add: get_stable_prediction_def Let_def)

lemma push_prediction_keeps:
  "latest_humidity (fst (push_prediction rank pred s)) = latest_humidity s"
  "latest_temperature (fst (push_prediction rank pred s)) = latest_temperature s"
  "latest_moisture (fst (push_prediction rank pred s)) = latest_moisture s"
  "motor_running (fst (push_prediction rank pred s)) = motor_running s"
  by (simp_all add: push_prediction_def get_stable_prediction_keeps)

lemma process_frames_iteration_outcome:
  "snd (process_frames_iteration rank pred s) =
     (case raw_frame_queue s of
        [] \<Rightarrow> Inr None
      | frame # q \<Rightarrow>
          (case conditions_met s
                  (split_first (reading_label (snd (push_prediction rank pred (s\<lparr>raw_frame_queue := q\<rparr>))))) of
             Inl e \<Rightarrow> Inl e
           | Inr ok \<Rightarrow>
               Inr (if ok
                    then Some (split_first (reading_label
                                 (snd (push_prediction rank pred (s\<lparr>raw_frame_queue := q\<rparr>)))))
                    else None)))"
proof (cases "raw_frame_queue s")
  case Nil
  then show ?thesis
    by (simp add: process_frames_iteration_def deque_try_take_def)
next
  case (Cons frame q)
  obtain s1 l c v where p: "push_prediction rank pred (s\<lparr>raw_frame_queue := q\<rparr>) = (s1, l, c, v)"
    by (metis prod_cases4)
  have k: "latest_humidity s1 = latest_humidity s" "latest_temperature s1 = latest_temperature s"
    "latest_moisture s1 = latest_moisture s" "motor_running s1 = motor_running s"
    using push_prediction_keeps [of rank pred "s\<lparr>raw_frame_queue := q\<rparr>"] p by simp_all
  show ?thesis
    using Cons p k
    by (simp add: process_frames_iteration_def deque_try_take_def Let_def reading_label_def
        conditions_met_eq)
qed

text \<open>
  Claim C3: whenever the stored humidity or the stored temperature is \<open>None\<close>, the
  gate is false and nothing is raised: a poll of \<^verbatim>\<open>/process\<close> without the force
  flag is answered with STOP and duration 0, the gate of the handler and the gate of
  the processing loop both evaluate to \<open>False\<close> for every label, and a pass of the
  processing loop starts no spray thread.
\<close>

theorem C3_missing_sensor_fails_closed:
  assumes "latest_humidity s = None \<or> latest_temperature s = None"
  shows "(\<not> force_spray_now s \<longrightarrow>
            poll_reply ts data s = Inr \<lparr>motor_command = ''STOP'', duration = 0\<rparr>) \<and>
         all_conditions_ok (fst (handle_moisture_data ts data s)) l = Inr False \<and>
         conditions_met s l = Inr False \<and>
         snd (process_frames_iteration rank pred s) = Inr None"
proof -
  have gate: "all_conditions_ok s' l' = Inr False"
    if "latest_humidity s' = latest_humidity s" "latest_temperature s' = latest_temperature s"
    for s' l'
    using assms that by (auto simp: all_conditions_ok_eq)
  have loc: "conditions_met s l' = Inr False" for l'
    using assms by (auto simp: conditions_met_eq)
  have "poll_reply ts data s = Inr \<lparr>motor_command = ''STOP'', duration = 0\<rparr>"
    if "\<not> force_spray_now s"
    using that by (simp add: poll_reply_auto gate)
  moreover have "all_conditions_ok (fst (handle_moisture_data ts data s)) l = Inr False"
    by (rule gate) (simp_all add: handle_keeps_environment)
  moreover have "snd (process_frames_iteration rank pred s) = Inr None"
    by (simp add: process_frames_iteration_outcome loc split: list.splits)
  ultimately show ?thesis
    using loc by blast
qed

theorem C3_missing_sensor_fails_closed_witness:
  "(latest_humidity (high_state\<lparr>latest_humidity := None, raw_frame_queue := [1]\<rparr>) = None \<or>
    latest_temperature (high_state\<lparr>latest_humidity := None, raw_frame_queue := [1]\<rparr>) = None) \<and>
   \<not> force_spray_now (high_state\<lparr>latest_humidity := None, raw_frame_queue := [1]\<rparr>) \<and>
   poll_reply 0 moisture_dry (high_state\<lparr>latest_humidity := None, raw_frame_queue := [1]\<rparr>) =
     Inr \<lparr>motor_command = ''STOP'', duration = 0\<rparr> \<and>
   conditions_met (high_state\<lparr>latest_humidity := None, raw_frame_queue := [1]\<rparr>) ''high'' =
     Inr False \<and>
   snd (process_frames_iteration rank0 high_frame
          (high_state\<lparr>latest_humidity := None, raw_frame_queue := [1]\<rparr>)) = Inr None"
  using C3_missing_sensor_fails_closed
    [of "high_state\<lparr>latest_humidity := None, raw_frame_queue := [1]\<rparr>" 0 moisture_dry
        "''high''" rank0 high_frame]
  by (simp add: example_simps)

text \<open>
  Claim C4: with the force flag set, a poll is answered with RUN and duration 3
  whatever the gate says, the flag is clear in the state the handler leaves, and the
  next poll is decided by the gate alone: RUN with the duration of the table when the
  gate holds, STOP with duration 0 otherwise.
\<close>

theorem C4_force_flag_consumed_once:
  assumes "force_spray_now s"
  shows "poll_reply ts data s = Inr \<lparr>motor_command = ''RUN'', duration = 3\<rparr> \<and>
         \<not> force_spray_now (fst (handle_moisture_data ts data s)) \<and>
         (all_conditions_ok
            (s\<lparr>latest_moisture := (case data' ''moisture'' of None \<Rightarrow> 0 | Some m \<Rightarrow> m)\<rparr>)
            (split_first (latest_plant_label s)) = Inr True \<longrightarrow>
          (\<exists>d. spray_durations (split_first (latest_plant_label s)) = Some d \<and>
               poll_reply ts' data' (fst (handle_moisture_data ts data s)) =
                 Inr \<lparr>motor_command = ''RUN'', duration = d\<rparr>)) \<and>
         (all_conditions_ok
            (s\<lparr>latest_moisture := (case data' ''moisture'' of None \<Rightarrow> 0 | Some m \<Rightarrow> m)\<rparr>)
            (split_first (latest_plant_label s)) \<noteq> Inr True \<longrightarrow>
          poll_reply ts' data' (fst (handle_moisture_data ts data s)) =
            Inr \<lparr>motor_command = ''STOP'', duration = 0\<rparr>)"
proof -
  let ?s1 = "fst (handle_moisture_data ts data s)"
  let ?m = "case data' ''moisture'' of None \<Rightarrow> 0 | Some m \<Rightarrow> m"
  let ?l = "split_first (latest_plant_label s)"
  have flag: "\<not> force_spray_now ?s1"
    by (rule handle_clears_force_flag)
  have same: "all_conditions_ok (?s1\<lparr>latest_moisture := ?m\<rparr>) ?l =
              all_conditions_ok (s\<lparr>latest_moisture := ?m\<rparr>) ?l"
    by (simp add: all_conditions_ok_eq handle_keeps_environment)
  have second: "poll_reply ts' data' ?s1 =
      (case all_conditions_ok (s\<lparr>latest_moisture := ?m\<rparr>) ?l of
         Inl e \<Rightarrow> Inl e
       | Inr ok \<Rightarrow>
           if ok then (case spray_durations ?l of None \<Rightarrow> Inl KeyError
                       | Some d \<Rightarrow> Inr \<lparr>motor_command = ''RUN'', duration = d\<rparr>)
           else Inr \<lparr>motor_command = ''STOP'', duration = 0\<rparr>)"
    using poll_reply_auto [OF flag, of ts' data'] same
    unfolding handle_keeps_environment by simp
  show ?thesis
    using assms flag second
    by (auto simp: poll_reply_force all_conditions_ok_eq)
qed

theorem C4_force_flag_consumed_once_witness:
  "force_spray_now (healthy_state\<lparr>force_spray_now := True\<rparr>) \<and>
   poll_reply 0 moisture_dry (healthy_state\<lparr>force_spray_now := True\<rparr>) =
     Inr \<lparr>motor_command = ''RUN'', duration = 3\<rparr> \<and>
   \<not> force_spray_now
       (fst (handle_moisture_data 0 moisture_dry (healthy_state\<lparr>force_spray_now := True\<rparr>))) \<and>
   poll_reply 1 moisture_dry
     (fst (handle_moisture_data 0 moisture_dry (healthy_state\<lparr>force_spray_now := True\<rparr>))) =
     Inr \<lparr>motor_command = ''STOP'', duration = 0\<rparr> \<and>
   force_spray_now (high_state\<lparr>force_spray_now := True\<rparr>) \<and>
   poll_reply 1 moisture_dry
     (fst (handle_moisture_data 0 moisture_dry (high_state\<lparr>force_spray_now := True\<rparr>))) =
     Inr \<lparr>motor_command = ''RUN'', duration = 5\<rparr>"
  using
    C4_force_flag_consumed_once
      [of "healthy_state\<lparr>force_spray_now := True\<rparr>" 0 moisture_dry moisture_dry 1]
    C4_force_flag_consumed_once
      [of "high_state\<lparr>force_spray_now := True\<rparr>" 0 moisture_dry moisture_dry 1]
  by (auto simp: example_simps all_conditions_ok_eq)

section \<open>Absent moisture and the shape of the reply\<close>

text \<open>
  Claim C9: a request without the key \<^verbatim>\<open>moisture\<close> stores 0 as the latest moisture;
  0 is below the moisture limit, so the gate then depends on the severity, the humidity
  and the temperature only, and the poll is answered with RUN whenever those allow it.
\<close>

theorem C9_absent_moisture_passes_gate:
  assumes "data ''moisture'' = None"
  shows "latest_moisture (fst (handle_moisture_data ts data s)) = 0 \<and>
         latest_moisture (fst (handle_moisture_data ts data s)) < MOISTURE_LIMIT \<and>
         all_conditions_ok (fst (handle_moisture_data ts data s)) l =
           Inr (spray_durations l \<noteq> None \<and> l \<noteq> NO_PLANT \<and>
                (case latest_humidity s of None \<Rightarrow> False | Some h \<Rightarrow> h < HUMIDITY_LIMIT) \<and>
                (case latest_temperature s of None \<Rightarrow> False | Some t \<Rightarrow> t < TEMP_LIMIT)) \<and>
         (\<not> force_spray_now s \<longrightarrow>
          all_conditions_ok (fst (handle_moisture_data ts data s))
            (split_first (latest_plant_label s)) = Inr True \<longrightarrow>
          (\<exists>d. poll_reply ts data s = Inr \<lparr>motor_command = ''RUN'', duration = d\<rparr>))"
proof -
  let ?s1 = "fst (handle_moisture_data ts data s)"
  have m: "latest_moisture ?s1 = 0"
    using assms by (simp add: handle_keeps_environment)
  then have lt: "latest_moisture ?s1 < MOISTURE_LIMIT"
    by (simp add: MOISTURE_LIMIT_def)
  have gate: "all_conditions_ok ?s1 l =
           Inr (spray_durations l \<noteq> None \<and> l \<noteq> NO_PLANT \<and>
                (case latest_humidity s of None \<Rightarrow> False | Some h \<Rightarrow> h < HUMIDITY_LIMIT) \<and>
                (case latest_temperature s of None \<Rightarrow> False | Some t \<Rightarrow> t < TEMP_LIMIT))"
    using lt by (simp add: all_conditions_ok_eq handle_keeps_environment(1,2))
  have same: "all_conditions_ok ?s1 l' = all_conditions_ok (s\<lparr>latest_moisture := 0\<rparr>) l'" for l'
    using assms by (simp add: all_conditions_ok_eq handle_keeps_environment)
  have run: "\<exists>d. poll_reply ts data s = Inr \<lparr>motor_command = ''RUN'', duration = d\<rparr>"
    if "\<not> force_spray_now s"
      "all_conditions_ok ?s1 (split_first (latest_plant_label s)) = Inr True"
  proof -
    from that(2) have ok: "all_conditions_ok (s\<lparr>latest_moisture := 0\<rparr>)
                             (split_first (latest_plant_label s)) = Inr True"
      by (simp only: same)
    then obtain d where "spray_durations (split_first (latest_plant_label s)) = Some d"
      by (auto simp: all_conditions_ok_eq)
    with that(1) ok assms show ?thesis
      by (simp add: poll_reply_auto)
  qed
  show ?thesis
    using m lt gate run by blast
qed

theorem C9_absent_moisture_passes_gate_witness:
  "Map.empty ''moisture'' = (None :: real option) \<and>
   latest_moisture (fst (handle_moisture_data 0 Map.empty (high_state\<lparr>latest_moisture := 80\<rparr>))) = 0 \<and>
   poll_reply 0 Map.empty (high_state\<lparr>latest_moisture := 80\<rparr>) =
     Inr \<lparr>motor_command = ''RUN'', duration = 5\<rparr>"
  using C9_absent_moisture_passes_gate
    [of Map.empty 0 "high_state\<lparr>latest_moisture := 80\<rparr>" "''high''"]
  by (auto simp: example_simps all_conditions_ok_eq poll_reply_auto handle_keeps_environment)

text \<open>
  Claim C10: a poll of \<^verbatim>\<open>/process\<close> is always answered, and the reply is RUN with
  duration 3 on the force path, and otherwise RUN with a duration of 2, 3 or 5 or STOP
  with duration 0. The command is RUN exactly when the duration is positive, which is
  when the remote node switches its pump on.
\<close>

theorem C10_reply_shape:
  "\<exists>r. poll_reply ts data s = Inr r \<and>
       (force_spray_now s \<longrightarrow> r = \<lparr>motor_command = ''RUN'', duration = 3\<rparr>) \<and>
       (\<not> force_spray_now s \<longrightarrow>
          (motor_command r = ''RUN'' \<and> duration r \<in> {2, 3, 5}) \<or>
          r = \<lparr>motor_command = ''STOP'', duration = 0\<rparr>) \<and>
       (motor_command r = ''RUN'' \<longleftrightarrow> 0 < duration r) \<and>
       (pi_motor_on r \<longleftrightarrow> motor_command r = ''RUN'')"
proof (cases "force_spray_now s")
  case True
  then show ?thesis
    by (simp add: poll_reply_force pi_motor_on_def)
next
  case False
  let ?l = "split_first (latest_plant_label s)"
  show ?thesis
  proof (cases "all_conditions_ok
                  (s\<lparr>latest_moisture := (case data ''moisture'' of None \<Rightarrow> 0 | Some m \<Rightarrow> m)\<rparr>) ?l
                = Inr True")
    case True
    then obtain d where d: "spray_durations ?l = Some d"
      by (auto simp: all_conditions_ok_eq)
    with spray_durations_cases have "d \<in> {2, 3, 5}"
      by fastforce
    with False True d show ?thesis
      by (auto simp: poll_reply_auto pi_motor_on_def)
  next
    case no: False
    then have "all_conditions_ok
                 (s\<lparr>latest_moisture := (case data ''moisture'' of None \<Rightarrow> 0 | Some m \<Rightarrow> m)\<rparr>) ?l
               = Inr False"
      by (simp add: all_conditions_ok_eq)
    with False show ?thesis
      by (simp add: poll_reply_auto pi_motor_on_def)
  qed
qed

theorem C10_reply_shape_witness:
  "poll_reply 0 moisture_dry (healthy_state\<lparr>force_spray_now := True\<rparr>) =
     Inr \<lparr>motor_command = ''RUN'', duration = 3\<rparr> \<and>
   poll_reply 0 moisture_dry high_state = Inr \<lparr>motor_command = ''RUN'', duration = 5\<rparr> \<and>
   pi_motor_on \<lparr>motor_command = ''RUN'', duration = 5\<rparr> \<and>
   poll_reply 0 moisture_dry healthy_state = Inr \<lparr>motor_command = ''STOP'', duration = 0\<rparr> \<and>
   \<not> pi_motor_on \<lparr>motor_command = ''STOP'', duration = 0\<rparr>"
  using C10_reply_shape [of 0 moisture_dry "healthy_state\<lparr>force_spray_now := True\<rparr>"]
    C10_reply_shape [of 0 moisture_dry high_state]
    C10_reply_shape [of 0 moisture_dry healthy_state]
  by (auto simp: example_simps all_conditions_ok_eq poll_reply_auto poll_reply_force
      pi_motor_on_def)

section \<open>Latest-value channel\<close>

text \<open>
  Claim C8: on a deque of capacity 1, two appends without a read in between leave
  exactly the second item, which the next read returns; an append is possible in every
  state of the program, and a read of the empty deque returns \<open>None\<close> and leaves the
  state of the processing loop as it was.
\<close>

theorem C8_latest_value_channel:
  assumes "length q \<le> 1"
  shows "deque_append 1 (deque_append 1 q a) b = [b] \<and>
         length (deque_append 1 (deque_append 1 q a) b) = 1 \<and>
         deque_try_take (deque_append 1 (deque_append 1 q a) b) = (Some b, []) \<and>
         deque_try_take ([] :: 'a list) = (None, []) \<and>
         exec_event rank (Capture f) sys \<noteq> None \<and>
         process_frames_iteration rank pred (s\<lparr>raw_frame_queue := []\<rparr>) =
           (s\<lparr>raw_frame_queue := []\<rparr>, Inr None)"
proof -
  from assms have "q = [] \<or> (\<exists>x. q = [x])"
    by (cases q) auto
  then have "deque_append 1 (deque_append 1 q a) b = [b]"
    by (auto simp: deque_append_def)
  then show ?thesis
    by (simp add: deque_try_take_def process_frames_iteration_def)
qed

theorem C8_latest_value_channel_witness:
  "length [7 :: nat] \<le> 1 \<and>
   deque_append 1 (deque_append 1 [7 :: nat] 8) 9 = [9] \<and>
   deque_try_take (deque_append 1 (deque_append 1 [7 :: nat] 8) 9) = (Some 9, [])"
  using C8_latest_value_channel [of "[7 :: nat]" 8 9 rank0 1 initial_system high_frame initial_state]
  by (simp add: deque_append_def deque_try_take_def)

section \<open>Temporal stabilizer: the smoothed confidence\<close>

lemma smooth_loop_snoc:
  "smooth_loop i sm (xs @ [(l, c)]) =
     (if i = 0 \<and> xs = [] then c
      else SMOOTHING_ALPHA * c + (1 - SMOOTHING_ALPHA) * smooth_loop i sm xs)"
  by (induction i sm xs rule: smooth_loop.induct) simp_all

lemma smooth_loop_snoc_pair:
  "smooth_loop i sm (xs @ [p]) =
     (if i = 0 \<and> xs = [] then snd p
      else SMOOTHING_ALPHA * snd p + (1 - SMOOTHING_ALPHA) * smooth_loop i sm xs)"
  by (cases p) (simp add: smooth_loop_snoc)

lemma smooth_loop_foldl:
  "smooth_loop (Suc i) sm xs =
     foldl (\<lambda>acc x. SMOOTHING_ALPHA * x + (1 - SMOOTHING_ALPHA) * acc) sm (map snd xs)"
  by (induction xs arbitrary: i sm) auto

lemma deque_append_drop:
  "length q \<le> n \<Longrightarrow> 0 < n \<Longrightarrow>
     deque_append n q x = drop (length (q @ [x]) - n) (q @ [x])"
  by (cases q) (auto simp: deque_append_def Let_def drop_Cons' le_Suc_eq)

lemma get_stable_prediction_confidence:
  "prediction_history s \<noteq> [] \<Longrightarrow>
     reading_confidence (snd (get_stable_prediction rank s)) = smooth_loop 0 0 (prediction_history s)"
  by (simp add: get_stable_prediction_def reading_confidence_def Let_def)

lemma deque_append_not_Nil: "0 < n \<Longrightarrow> deque_append n q x \<noteq> []"
  by (cases q) (auto simp: deque_append_def Let_def)

lemma push_prediction_history:
  "prediction_history (fst (push_prediction rank p s)) =
     deque_append HISTORY_SIZE (prediction_history s) p"
  by (simp add: push_prediction_def get_stable_prediction_def Let_def)

lemma push_prediction_confidence:
  "reading_confidence (snd (push_prediction rank p s)) =
     smooth_loop 0 0 (deque_append HISTORY_SIZE (prediction_history s) p)"
  by (simp add: push_prediction_def get_stable_prediction_confidence deque_append_not_Nil
      HISTORY_SIZE_def)

lemma feed_Cons_fst:
  "fst (feed rank (p # ps) s) = fst (feed rank ps (fst (push_prediction rank p s)))"
  by (simp split: prod.splits)

lemma feed_Cons_snd:
  "snd (feed rank (p # ps) s) =
     snd (push_prediction rank p s) # snd (feed rank ps (fst (push_prediction rank p s)))"
  by (simp split: prod.splits)

lemma drop_window:
  "drop (length (drop (length H - n) H @ ps) - n) (drop (length H - n) H @ ps) =
     drop (length (H @ ps) - n) (H @ ps)"
proof (cases "length H \<le> n")
  case True
  then show ?thesis by simp
next
  case False
  then have "length H - (length H - n) = n"
    by simp
  with False show ?thesis
    by (simp add: add.commute)
qed

lemma feed_history:
  "length (prediction_history s) \<le> HISTORY_SIZE \<Longrightarrow>
     prediction_history (fst (feed rank ps s)) =
       drop (length (prediction_history s @ ps) - HISTORY_SIZE) (prediction_history s @ ps)"
proof (induction ps arbitrary: s)
  case Nil
  then show ?case by simp
next
  case (Cons p ps)
  let ?s1 = "fst (push_prediction rank p s)"
  let ?H = "prediction_history s @ [p]"
  have h1: "prediction_history ?s1 = drop (length ?H - HISTORY_SIZE) ?H"
    using Cons.prems by (simp add: push_prediction_history deque_append_drop HISTORY_SIZE_def)
  then have len: "length (prediction_history ?s1) \<le> HISTORY_SIZE"
    by simp
  have "prediction_history (fst (feed rank (p # ps) s)) = prediction_history (fst (feed rank ps ?s1))"
    by (simp only: feed_Cons_fst)
  also have "\<dots> = drop (length (prediction_history ?s1 @ ps) - HISTORY_SIZE)
                     (prediction_history ?s1 @ ps)"
    by (rule Cons.IH [OF len])
  also have "\<dots> = drop (length (?H @ ps) - HISTORY_SIZE) (?H @ ps)"
    unfolding h1 by (rule drop_window)
  finally show ?case by simp
qed

lemma feed_length: "length (snd (feed rank ps s)) = length ps"
  by (induction ps arbitrary: s) (simp_all add: feed_Cons_snd del: feed.simps(2))

lemma feed_snoc:
  "feed rank (ps @ [p]) s =
     (fst (push_prediction rank p (fst (feed rank ps s))),
      snd (feed rank ps s) @ [snd (push_prediction rank p (fst (feed rank ps s)))])"
  by (induction ps arbitrary: s) (auto split: prod.splits)

lemma feed_take:
  "snd (feed rank (take i ps) s) = take i (snd (feed rank ps s))"
proof (induction ps arbitrary: s i)
  case Nil
  then show ?case by simp
next
  case (Cons p ps)
  show ?case
    by (cases i) (simp_all add: feed_Cons_snd Cons.IH del: feed.simps(2))
qed

lemma feed_nth:
  assumes "i < length ps"
  shows "snd (feed rank ps s) ! i = snd (push_prediction rank (ps ! i) (fst (feed rank (take i ps) s)))"
proof -
  have "take (Suc i) ps = take i ps @ [ps ! i]"
    using assms by (simp add: take_Suc_conv_app_nth)
  then have "snd (feed rank (take (Suc i) ps) s) =
      snd (feed rank (take i ps) s) @ [snd (push_prediction rank (ps ! i) (fst (feed rank (take i ps) s)))]"
    by (simp add: feed_snoc)
  moreover have "snd (feed rank (take (Suc i) ps) s) = take (Suc i) (snd (feed rank ps s))"
    using assms by (simp add: feed_take)
  moreover have "length (snd (feed rank (take i ps) s)) = i"
    using assms by (simp add: feed_length)
  ultimately show ?thesis
    using assms
    by (metis feed_length lessI nth_append_length nth_take)
qed

lemma feed_confidence:
  assumes "prediction_history s = []" "i < length ps"
  shows "reading_confidence (snd (feed rank ps s) ! i) =
           smooth_loop 0 0 (drop (Suc i - HISTORY_SIZE) (take (Suc i) ps))"
proof -
  let ?T = "take i ps"
  have len: "length ?T = i"
    using assms(2) by simp
  have h: "prediction_history (fst (feed rank ?T s)) = drop (length ?T - HISTORY_SIZE) ?T"
    using assms(1) by (simp add: feed_history)
  have "deque_append HISTORY_SIZE (drop (length ?T - HISTORY_SIZE) ?T) (ps ! i) =
          drop (length (drop (length ?T - HISTORY_SIZE) ?T @ [ps ! i]) - HISTORY_SIZE)
            (drop (length ?T - HISTORY_SIZE) ?T @ [ps ! i])"
    by (rule deque_append_drop) (simp_all add: HISTORY_SIZE_def)
  also have "\<dots> = drop (length (?T @ [ps ! i]) - HISTORY_SIZE) (?T @ [ps ! i])"
    by (rule drop_window)
  also have "\<dots> = drop (Suc i - HISTORY_SIZE) (take (Suc i) ps)"
    using assms(2) by (simp add: take_Suc_conv_app_nth)
  finally show ?thesis
    using assms(2) by (simp add: feed_nth push_prediction_confidence h)
qed

text \<open>
  Claim C5, as stated: every sample after the first updates the previously emitted
  value by \<open>\<alpha>\<cdot>confidence + (1 - \<alpha>)\<cdot>previous\<close>, also after more than 20 samples. The
  loop recomputes the average over the deque, whose oldest entry is dropped once 20 are
  held. After one confident frame and 19 frames without a plant the emitted value is
  \<open>100\<cdot>0.9\<^sup>1\<^sup>9\<close>; one more frame without a plant evicts the confident frame and the
  emitted value is 0, not 0.9 times the previous one.
\<close>

theorem C5_counterexample:
  "reading_confidence (snd (feed rank0 evicting_samples initial_state) ! 20) \<noteq>
     SMOOTHING_ALPHA * snd (evicting_samples ! 20) +
     (1 - SMOOTHING_ALPHA) * reading_confidence (snd (feed rank0 evicting_samples initial_state) ! 19)"
proof -
  have e: "prediction_history initial_state = []" "length evicting_samples = 21"
    by (simp_all add: initial_state_def evicting_samples_def)
  have last: "reading_confidence (snd (feed rank0 evicting_samples initial_state) ! 20) =
      smooth_loop 0 0 (drop (Suc 20 - HISTORY_SIZE) (take (Suc 20) evicting_samples))"
    by (rule feed_confidence) (simp_all add: e)
  have prev: "reading_confidence (snd (feed rank0 evicting_samples initial_state) ! 19) =
      smooth_loop 0 0 (drop (Suc 19 - HISTORY_SIZE) (take (Suc 19) evicting_samples))"
    by (rule feed_confidence) (simp_all add: e)
  show ?thesis
    unfolding last prev
    by (simp add: evicting_samples_def HISTORY_SIZE_def SMOOTHING_ALPHA_def eval_nat_numeral)
qed

text \<open>
  Claim C5, amended: fed a sequence of classifications from an empty history, the
  stabilizer emits the raw confidence for the first sample; for each of the next 19
  samples it emits \<open>\<alpha>\<cdot>confidence + (1 - \<alpha>)\<cdot>previous\<close> with \<open>\<alpha> = 0.1\<close> and the value
  it emitted before; from the 21st sample on it emits the same average recomputed over
  the last 20 samples only, started at the oldest of them.
\<close>

theorem C5_smoothed_confidence:
  assumes "prediction_history s = []" and "i < length ps"
  shows "reading_confidence (snd (feed rank ps s) ! i) =
     (if i = 0 then snd (ps ! 0)
      else if i < HISTORY_SIZE then
        SMOOTHING_ALPHA * snd (ps ! i) +
        (1 - SMOOTHING_ALPHA) * reading_confidence (snd (feed rank ps s) ! (i - 1))
      else
        (case drop (Suc i - HISTORY_SIZE) (take (Suc i) ps) of
           [] \<Rightarrow> 0
         | (l0, c0) # rest \<Rightarrow>
             foldl (\<lambda>acc x. SMOOTHING_ALPHA * x + (1 - SMOOTHING_ALPHA) * acc) c0 (map snd rest)))"
proof -
  consider "i = 0" | "0 < i" "i < HISTORY_SIZE" | "HISTORY_SIZE \<le> i"
    by linarith
  then show ?thesis
  proof cases
    case 1
    have "reading_confidence (snd (feed rank ps s) ! 0) =
        smooth_loop 0 0 (drop (Suc 0 - HISTORY_SIZE) (take (Suc 0) ps))"
      using assms 1 by (simp only: feed_confidence)
    with assms 1 show ?thesis
      by (cases ps) (auto simp: HISTORY_SIZE_def simp del: feed.simps)
  next
    case 2
    then obtain j where j: "i = Suc j"
      by (cases i) auto
    have prev: "reading_confidence (snd (feed rank ps s) ! j) = smooth_loop 0 0 (take (Suc j) ps)"
      using assms 2 j by (simp add: feed_confidence)
    have "take (Suc i) ps = take i ps @ [ps ! i]"
      using assms(2) by (simp add: take_Suc_conv_app_nth)
    then have "smooth_loop 0 0 (take (Suc i) ps) =
        SMOOTHING_ALPHA * snd (ps ! i) + (1 - SMOOTHING_ALPHA) * smooth_loop 0 0 (take i ps)"
      using 2 assms(2) by (auto simp: smooth_loop_snoc_pair)
    with assms 2 j prev show ?thesis
      by (simp add: feed_confidence)
  next
    case 3
    show ?thesis
    proof (cases "drop (Suc i - HISTORY_SIZE) (take (Suc i) ps)")
      case Nil
      with assms(2) 3 show ?thesis
        by (simp add: HISTORY_SIZE_def)
    next
      case (Cons x rest)
      with assms 3 show ?thesis
        by (cases x) (simp add: feed_confidence smooth_loop_foldl HISTORY_SIZE_def)
    qed
  qed
qed

theorem C5_smoothed_confidence_witness:
  "prediction_history initial_state = [] \<and> (2 :: nat) < length evicting_samples \<and>
   reading_confidence (snd (feed rank0 evicting_samples initial_state) ! 0) = 100 \<and>
   reading_confidence (snd (feed rank0 evicting_samples initial_state) ! 1) = 90 \<and>
   reading_confidence (snd (feed rank0 evicting_samples initial_state) ! 2) = 81 \<and>
   reading_confidence (snd (feed rank0 evicting_samples initial_state) ! 20) = 0"
  using C5_smoothed_confidence [of initial_state 0 evicting_samples rank0]
    C5_smoothed_confidence [of initial_state 1 evicting_samples rank0]
    C5_smoothed_confidence [of initial_state 2 evicting_samples rank0]
    C5_smoothed_confidence [of initial_state 20 evicting_samples rank0]
  unfolding evicting_samples_def
  by (simp add: initial_state_def HISTORY_SIZE_def SMOOTHING_ALPHA_def eval_nat_numeral
      del: feed.simps)

section \<open>Temporal stabilizer: hysteresis\<close>

lemma push_prediction_hold:
  assumes "reading_confidence (snd (push_prediction rank p s)) < MIN_CONFIDENCE"
    and "plant_currently_visible s" and "frames_without_plant s + 1 < HYSTERESIS"
  shows "plant_currently_visible (fst (push_prediction rank p s))"
    and "frames_without_plant (fst (push_prediction rank p s)) = frames_without_plant s + 1"
    and "reading_label (snd (push_prediction rank p s)) =
           most_common_label rank
             (valid_labels_of (prediction_history (fst (push_prediction rank p s))))"
  using assms
  by (auto simp: push_prediction_def get_stable_prediction_def Let_def reading_confidence_def
      reading_label_def deque_append_not_Nil HISTORY_SIZE_def split: if_splits)

lemma push_prediction_flip:
  assumes "reading_confidence (snd (push_prediction rank p s)) < MIN_CONFIDENCE"
    and "\<not> (plant_currently_visible s \<and> frames_without_plant s + 1 < HYSTERESIS)"
  shows "\<not> plant_currently_visible (fst (push_prediction rank p s))"
    and "frames_without_plant (fst (push_prediction rank p s)) = 0"
    and "reading_label (snd (push_prediction rank p s)) = NO_PLANT"
  using assms
  by (auto simp: push_prediction_def get_stable_prediction_def Let_def reading_confidence_def
      reading_label_def deque_append_not_Nil HISTORY_SIZE_def split: if_splits)

lemma feed_hysteresis_run:
  assumes "plant_currently_visible s" and "frames_without_plant s = 0"
    and "\<forall>r \<in> set (snd (feed rank ps s)). reading_confidence r < MIN_CONFIDENCE"
    and "int (length ps) < HYSTERESIS"
  shows "plant_currently_visible (fst (feed rank ps s)) \<and>
         frames_without_plant (fst (feed rank ps s)) = int (length ps) \<and>
         (ps \<noteq> [] \<longrightarrow>
            reading_label (last (snd (feed rank ps s))) =
              most_common_label rank (valid_labels_of (prediction_history (fst (feed rank ps s)))))"
  using assms(3,4)
proof (induction ps rule: rev_induct)
  case Nil
  with assms(1,2) show ?case by simp
next
  case (snoc p ps)
  let ?s1 = "fst (feed rank ps s)"
  have ih: "plant_currently_visible ?s1" "frames_without_plant ?s1 = int (length ps)"
    using snoc by (simp_all add: feed_snoc)
  have below: "reading_confidence (snd (push_prediction rank p ?s1)) < MIN_CONFIDENCE"
    using snoc.prems(1) by (simp add: feed_snoc)
  have room: "frames_without_plant ?s1 + 1 < HYSTERESIS"
    using snoc.prems(2) ih(2) by simp
  show ?case
    using push_prediction_hold [OF below ih(1) room] ih(2)
    by (simp add: feed_snoc)
qed


text \<open>The label that \<^verbatim>\<open>max(set(...), key=...count)\<close> returns has the largest count.\<close>

lemma py_max_key_greatest:
  "py_max_key f best xs \<in> set (best # xs) \<and>
   (\<forall>y \<in> set (best # xs). f y \<le> f (py_max_key f best xs))"
proof (induction xs arbitrary: best)
  case Nil
  then show ?case by simp
next
  case (Cons x xs)
  from Cons.IH [of "if f best < f x then x else best"] show ?case
    by (auto simp: le_less_trans dest: order_trans split: if_splits)
qed

lemma most_common_label_majority:
  assumes "x \<in> set v" and "\<forall>y \<in> set v. y \<noteq> x \<longrightarrow> count_list v y < count_list v x"
  shows "most_common_label rank v = x"
proof (cases "py_set_iter rank v")
  case Nil
  then have "set (py_set_iter rank v) = {}" by simp
  with assms(1) show ?thesis
    by (simp add: py_set_iter_def)
next
  case (Cons x0 rest)
  then have s: "set (x0 # rest) = set v"
    by (metis py_set_iter_def set_remdups set_sort)
  let ?r = "py_max_key (count_list v) x0 rest"
  have "?r \<in> set v" and "count_list v x \<le> count_list v ?r"
    using py_max_key_greatest [of "count_list v" x0 rest] s assms(1) by auto
  with assms(2) have "?r = x"
    by (meson not_le)
  with Cons show ?thesis
    by (simp add: most_common_label_def)
qed

lemmas stabilizer_simps =
  push_prediction_def get_stable_prediction_def Let_def deque_append_def
  HISTORY_SIZE_def MIN_CONFIDENCE_def HYSTERESIS_def SMOOTHING_ALPHA_def NO_PLANT_def
  valid_labels_of_def reading_label_def reading_confidence_def GREEN_def RED_def
  initial_state_def weak_healthy_frame_def weak_low_frame_def barely_visible_state_def

lemmas label_simps = most_common_label_def py_set_iter_def rank0_def

text \<open>
  Claim C6, as stated: after a subject was visible, fewer than 5 consecutive
  evaluations below the threshold keep the stabilizer reporting the previous majority
  label. The label reported in such a run is the majority of the history as it is at
  that evaluation, new frames included. Below, a frame classified healthy at 35.5 is
  reported as such; two frames classified low at 26.0 follow, both evaluations are
  below 35, and the second reports the low label.
\<close>

theorem C6_counterexample:
  "plant_currently_visible barely_visible_state \<and>
   frames_without_plant barely_visible_state = 0 \<and>
   reading_label (snd (push_prediction rank0 weak_healthy_frame initial_state)) =
     ''healthy (35.5%)'' \<and>
   map reading_confidence
     (snd (feed rank0 [weak_low_frame, weak_low_frame] barely_visible_state)) =
     [691 / 20, 6739 / 200] \<and>
   691 / 20 < MIN_CONFIDENCE \<and> 6739 / 200 < MIN_CONFIDENCE \<and>
   reading_label (last (snd (feed rank0 [weak_low_frame, weak_low_frame] barely_visible_state))) =
     ''low (26.0%)''"
  by (simp add: stabilizer_simps label_simps)

text \<open>The same run under any iteration order of the set of labels.\<close>

lemma low_label_any_order:
  "reading_label
     (last (snd (feed rank [weak_low_frame, weak_low_frame]
                   (fst (push_prediction rank weak_healthy_frame initial_state))))) =
   ''low (26.0%)''"
proof -
  have "most_common_label rank [''healthy (35.5%)'', ''low (26.0%)'', ''low (26.0%)''] =
          ''low (26.0%)''"
    by (rule most_common_label_majority) simp_all
  then show ?thesis
    by (simp add: stabilizer_simps)
qed

text \<open>
  Claim C6, amended: from a state in which a subject is visible and the counter is 0,
  a run of fewer than 5 consecutive evaluations below the threshold ends with the
  stabilizer reporting the majority label of the history as it then is, the subject
  still visible and the counter at the length of the run; a run of exactly 5 ends with
  the label \<open>No Plant Detected\<close>, the subject no longer visible and the counter back
  at 0.
\<close>

theorem C6_hysteresis:
  assumes "plant_currently_visible s" and "frames_without_plant s = 0"
    and "ps \<noteq> []"
    and "\<forall>r \<in> set (snd (feed rank ps s)). reading_confidence r < MIN_CONFIDENCE"
  shows "(int (length ps) < HYSTERESIS \<longrightarrow>
            reading_label (last (snd (feed rank ps s))) =
              most_common_label rank (valid_labels_of (prediction_history (fst (feed rank ps s)))) \<and>
            plant_currently_visible (fst (feed rank ps s)) \<and>
            frames_without_plant (fst (feed rank ps s)) = int (length ps)) \<and>
         (int (length ps) = HYSTERESIS \<longrightarrow>
            reading_label (last (snd (feed rank ps s))) = NO_PLANT \<and>
            \<not> plant_currently_visible (fst (feed rank ps s)) \<and>
            frames_without_plant (fst (feed rank ps s)) = 0)"
proof (intro conjI impI)
  assume short: "int (length ps) < HYSTERESIS"
  from feed_hysteresis_run [OF assms(1,2,4) short] assms(3)
  show "reading_label (last (snd (feed rank ps s))) =
          most_common_label rank (valid_labels_of (prediction_history (fst (feed rank ps s))))"
    and "plant_currently_visible (fst (feed rank ps s))"
    and "frames_without_plant (fst (feed rank ps s)) = int (length ps)"
    by simp_all
next
  assume full: "int (length ps) = HYSTERESIS"
  obtain qs p where ps: "ps = qs @ [p]"
    using assms(3) by (metis rev_exhaust)
  let ?s1 = "fst (feed rank qs s)"
  have "\<forall>r \<in> set (snd (feed rank qs s)). reading_confidence r < MIN_CONFIDENCE"
    using assms(4) by (simp add: ps feed_snoc)
  moreover have "int (length qs) < HYSTERESIS"
    using full by (simp add: ps)
  ultimately have "frames_without_plant ?s1 = int (length qs)"
    using feed_hysteresis_run [OF assms(1,2)] by blast
  then have full': "\<not> (plant_currently_visible ?s1 \<and> frames_without_plant ?s1 + 1 < HYSTERESIS)"
    using full by (simp add: ps)
  have below: "reading_confidence (snd (push_prediction rank p ?s1)) < MIN_CONFIDENCE"
    using assms(4) by (simp add: ps feed_snoc)
  from push_prediction_flip [OF below full']
  show "reading_label (last (snd (feed rank ps s))) = NO_PLANT"
    and "\<not> plant_currently_visible (fst (feed rank ps s))"
    and "frames_without_plant (fst (feed rank ps s)) = 0"
    by (simp_all add: ps feed_snoc)
qed

theorem C6_hysteresis_witness:
  "plant_currently_visible barely_visible_state \<and>
   frames_without_plant barely_visible_state = 0 \<and>
   reading_label (last (snd (feed rank0 (replicate 4 weak_low_frame) barely_visible_state))) =
     ''low (26.0%)'' \<and>
   plant_currently_visible (fst (feed rank0 (replicate 4 weak_low_frame) barely_visible_state)) \<and>
   frames_without_plant (fst (feed rank0 (replicate 4 weak_low_frame) barely_visible_state)) = 4 \<and>
   reading_label (last (snd (feed rank0 (replicate 5 weak_low_frame) barely_visible_state))) =
     ''No Plant Detected'' \<and>
   \<not> plant_currently_visible (fst (feed rank0 (replicate 5 weak_low_frame) barely_visible_state)) \<and>
   frames_without_plant (fst (feed rank0 (replicate 5 weak_low_frame) barely_visible_state)) = 0"
proof -
  have v: "plant_currently_visible barely_visible_state"
    "frames_without_plant barely_visible_state = 0"
    by (simp_all add: stabilizer_simps)
  have four: "replicate 4 weak_low_frame \<noteq> []"
    "\<forall>r \<in> set (snd (feed rank0 (replicate 4 weak_low_frame) barely_visible_state)).
       reading_confidence r < MIN_CONFIDENCE"
    by (simp_all add: stabilizer_simps eval_nat_numeral)
  have five: "replicate 5 weak_low_frame \<noteq> []"
    "\<forall>r \<in> set (snd (feed rank0 (replicate 5 weak_low_frame) barely_visible_state)).
       reading_confidence r < MIN_CONFIDENCE"
    by (simp_all add: stabilizer_simps eval_nat_numeral)
  have l: "most_common_label rank0
             (valid_labels_of
                (prediction_history
                   (fst (feed rank0 (replicate 4 weak_low_frame) barely_visible_state)))) =
           ''low (26.0%)''"
    by (simp add: stabilizer_simps label_simps eval_nat_numeral)
  show ?thesis
    using C6_hysteresis [OF v four] C6_hysteresis [OF v five] v l
    by (simp add: HYSTERESIS_def NO_PLANT_def)
qed

section \<open>Actuation sessions\<close>

lemma last_deque_append: "0 < n \<Longrightarrow> last (deque_append n q x) = x"
  by (cases q) (auto simp: deque_append_def Let_def)

lemma run_motor_spray_begin_known:
  "spray_durations severity = Some d \<Longrightarrow>
     run_motor_spray_begin ts severity g =
       (log_event ts (Motor_on d severity) ''success''
          (g\<lparr>spray_lasts_for := d, spray_started_at := ts, motor_running := True\<rparr>),
        Inr (Some d))"
  by (simp add: run_motor_spray_begin_def dict_contains_def dict_getitem_def)

lemma exec_process_frame_spawn:
  assumes "ai_thread_error sys = None"
    and "raw_frame_queue (globals sys) = frame # q"
    and "split_first (reading_label
           (snd (push_prediction rank pred ((globals sys)\<lparr>raw_frame_queue := q\<rparr>)))) = severity"
    and "conditions_met (globals sys) severity = Inr True"
  shows "exec_event rank (Process_frame pred) sys =
           Some (sys\<lparr>globals := fst (process_frames_iteration rank pred (globals sys)),
                     spray_threads := spray_threads sys @ [Spawned severity]\<rparr>)"
proof -
  have "snd (process_frames_iteration rank pred (globals sys)) = Inr (Some severity)"
    using assms(2,3,4) by (simp add: process_frames_iteration_outcome)
  then obtain g where "process_frames_iteration rank pred (globals sys) = (g, Inr (Some severity))"
    by (metis prod.collapse)
  with assms(1,2) show ?thesis
    by simp
qed

text \<open>The processing loop starts a spray thread only when it reads the flag as false.\<close>

lemma spawn_requires_idle_flag:
  assumes "exec_event rank (Process_frame pred) sys = Some sys1"
    and "spray_threads sys1 \<noteq> spray_threads sys"
  shows "\<not> motor_running (globals sys)"
proof -
  obtain g r where p: "process_frames_iteration rank pred (globals sys) = (g, r)"
    by (cases "process_frames_iteration rank pred (globals sys)")
  with assms obtain severity where "r = Inr (Some severity)"
    by (auto split: if_splits sum.splits option.splits)
  with p have "snd (process_frames_iteration rank pred (globals sys)) = Inr (Some severity)"
    by simp
  then show ?thesis
    by (auto simp: process_frames_iteration_outcome conditions_met_eq
        split: list.splits if_splits)
qed


text \<open>
  Claim C7: when a pass of the processing loop finds the gate true for the stable
  severity, a spray thread is started with that severity; its first part takes the
  duration from the table (2 for low, 3 for medium, 5 for high), records it and the
  start time and sets \<^verbatim>\<open>motor_running\<close>; its second part cannot run before the
  duration has elapsed, and when it runs it clears \<^verbatim>\<open>motor_running\<close> and logs the
  completion of the spray.
\<close>

theorem C7_auto_spray_session:
  assumes "ai_thread_error sys = None"
    and "raw_frame_queue (globals sys) = frame # q"
    and "split_first (reading_label
           (snd (push_prediction rank pred ((globals sys)\<lparr>raw_frame_queue := q\<rparr>)))) = severity"
    and "conditions_met (globals sys) severity = Inr True"
    and "i = length (spray_threads sys)"
  shows "\<exists>sys1 sys2 d.
      exec_event rank (Process_frame pred) sys = Some sys1 \<and>
      spray_threads sys1 = spray_threads sys @ [Spawned severity] \<and>
      spray_durations severity = Some d \<and>
      (severity, d) \<in> {(''low'', 2), (''medium'', 3), (''high'', 5)} \<and>
      exec_event rank (Spray_begin i) sys1 = Some sys2 \<and>
      motor_running (globals sys2) \<and>
      spray_lasts_for (globals sys2) = d \<and>
      spray_started_at (globals sys2) = now sys \<and>
      spray_threads sys2 ! i = Sleeping d (now sys + real_of_int d) \<and>
      (\<forall>dt. 0 \<le> dt \<and> dt < real_of_int d \<longrightarrow>
         run_events rank [Tick dt, Spray_end i] sys2 = None) \<and>
      (\<forall>dt. real_of_int d \<le> dt \<longrightarrow>
         (\<exists>sys3. run_events rank [Tick dt, Spray_end i] sys2 = Some sys3 \<and>
            \<not> motor_running (globals sys3) \<and>
            entry_message (last (activity_log (globals sys3))) = Motor_off d \<and>
            spray_threads sys3 ! i = Finished))"
proof -
  let ?g1 = "fst (process_frames_iteration rank pred (globals sys))"
  let ?sys1 = "sys\<lparr>globals := ?g1, spray_threads := spray_threads sys @ [Spawned severity]\<rparr>"
  from assms(4) obtain d where d: "spray_durations severity = Some d"
    by (auto simp: conditions_met_eq)
  then have table: "(severity, d) \<in> {(''low'', 2), (''medium'', 3), (''high'', 5)}"
    by (rule spray_durations_cases)
  then have pos: "0 < d"
    by auto
  let ?g2 = "log_event (now sys) (Motor_on d severity) ''success''
               (?g1\<lparr>spray_lasts_for := d, spray_started_at := now sys, motor_running := True\<rparr>)"
  let ?sys2 = "?sys1\<lparr>globals := ?g2,
                  spray_threads := (spray_threads ?sys1)[i := Sleeping d (now sys + real_of_int d)]\<rparr>"
  have step1: "exec_event rank (Process_frame pred) sys = Some ?sys1"
    using assms(1-4) by (rule exec_process_frame_spawn)
  have step2: "exec_event rank (Spray_begin i) ?sys1 = Some ?sys2"
    using assms(5) by (simp add: run_motor_spray_begin_known [OF d])
  have sleeping: "spray_threads ?sys2 ! i = Sleeping d (now sys + real_of_int d)"
    using assms(5) by simp
  have early: "run_events rank [Tick dt, Spray_end i] ?sys2 = None"
    if "0 \<le> dt \<and> dt < real_of_int d" for dt
    using that assms(5) by simp
  have late: "\<exists>sys3. run_events rank [Tick dt, Spray_end i] ?sys2 = Some sys3 \<and>
            \<not> motor_running (globals sys3) \<and>
            entry_message (last (activity_log (globals sys3))) = Motor_off d \<and>
            spray_threads sys3 ! i = Finished"
    if "real_of_int d \<le> dt" for dt
  proof -
    from that pos have "0 \<le> dt"
      by linarith
    with that assms(5) show ?thesis
      by (simp add: run_motor_spray_end_def log_event_def last_deque_append)
  qed
  have "motor_running (globals ?sys2)" "spray_lasts_for (globals ?sys2) = d"
    "spray_started_at (globals ?sys2) = now sys"
    by (simp_all add: log_event_def)
  with step1 step2 d table sleeping early late show ?thesis
    by (intro exI [of _ ?sys1] exI [of _ ?sys2] exI [of _ d]) (simp del: exec_event.simps run_events.simps)
qed

lemma ready_system_reached:
  "run_events rank0 [Post_dht22 dht22_mild, Post_process moisture_dry, Capture 1] initial_system =
     Some ready_system"
  by (simp add: ready_system_def run_simps all_conditions_ok_eq)

theorem C7_auto_spray_session_witness:
  "ai_thread_error ready_system = None \<and>
   raw_frame_queue (globals ready_system) = [1] \<and>
   conditions_met (globals ready_system) ''high'' = Inr True \<and>
   (\<exists>sys1 sys2 sys3.
      exec_event rank0 (Process_frame high_frame) ready_system = Some sys1 \<and>
      exec_event rank0 (Spray_begin 0) sys1 = Some sys2 \<and>
      motor_running (globals sys2) \<and> spray_lasts_for (globals sys2) = 5 \<and>
      run_events rank0 [Tick 4, Spray_end 0] sys2 = None \<and>
      run_events rank0 [Tick 5, Spray_end 0] sys2 = Some sys3 \<and>
      \<not> motor_running (globals sys3) \<and>
      entry_message (last (activity_log (globals sys3))) = Motor_off 5)"
proof -
  have a: "ai_thread_error ready_system = None" "raw_frame_queue (globals ready_system) = [1]"
    "conditions_met (globals ready_system) ''high'' = Inr True"
    "0 = length (spray_threads ready_system)"
    by (simp_all add: ready_system_def run_simps conditions_met_eq)
  have l: "split_first (reading_label
             (snd (push_prediction rank0 high_frame
                     ((globals ready_system)\<lparr>raw_frame_queue := []\<rparr>)))) = ''high''"
    by (simp add: ready_system_def run_simps reading_label_def)
  from C7_auto_spray_session [OF a(1,2) l a(3,4)]
  obtain sys1 sys2 d where s:
    "exec_event rank0 (Process_frame high_frame) ready_system = Some sys1"
    "spray_durations ''high'' = Some d"
    "exec_event rank0 (Spray_begin 0) sys1 = Some sys2"
    "motor_running (globals sys2)" "spray_lasts_for (globals sys2) = d"
    "\<forall>dt. 0 \<le> dt \<and> dt < real_of_int d \<longrightarrow> run_events rank0 [Tick dt, Spray_end 0] sys2 = None"
    "\<forall>dt. real_of_int d \<le> dt \<longrightarrow>
         (\<exists>sys3. run_events rank0 [Tick dt, Spray_end 0] sys2 = Some sys3 \<and>
            \<not> motor_running (globals sys3) \<and>
            entry_message (last (activity_log (globals sys3))) = Motor_off d \<and>
            spray_threads sys3 ! 0 = Finished)"
    by blast
  from s(2) have d: "d = 5"
    by (simp add: spray_durations_def)
  from s(6) d have early: "run_events rank0 [Tick 4, Spray_end 0] sys2 = None"
    by simp
  from s(7) d obtain sys3 where
    "run_events rank0 [Tick 5, Spray_end 0] sys2 = Some sys3" "\<not> motor_running (globals sys3)"
    "entry_message (last (activity_log (globals sys3))) = Motor_off 5"
    by (metis of_int_numeral order_refl)
  with a s(1,3,4,5) d early show ?thesis
    by blast
qed

text \<open>
  Claim C2: at most one actuation session is active in every reachable state. The
  processing loop reads \<^verbatim>\<open>motor_running\<close> before it starts a spray thread
  (\<open>spawn_requires_idle_flag\<close>), but the flag is set by the thread itself. In the
  schedule \<open>race_events\<close> the loop makes two passes before either thread has set the
  flag: both threads then switch the motor on and sleep, two sessions are active at
  once, and when the first ends the flag is false while the second is still active.
\<close>

theorem C2_overlapping_sessions:
  "map_option session_observation (run_events rank0 race_events initial_system) =
     Some (2, True) \<and>
   map_option session_observation
     (run_events rank0 (race_events @ [Tick 5, Spray_end 0]) initial_system) =
     Some (1, False)"
  by (simp add: race_events_def session_observation_def active_sessions_def run_simps
      all_conditions_ok_eq conditions_met_eq)

end
